theory Spec2Isabelle
  imports Main
begin

section \<open>Python values and their JSON text\<close>

text \<open>
  The adapter \<^verbatim>\<open>BraveSearchTools\<close> of \<^verbatim>\<open>agno/tools/bravesearch.py\<close> returns every
  result as the text \<^verbatim>\<open>json.dumps\<close> produces. The values it serialises are dictionaries
  with string keys whose values are strings, integers, \<^verbatim>\<open>None\<close>, lists and dictionaries.
  A Python \<^verbatim>\<open>str\<close> is a \<open>string\<close> here, each \<open>char\<close> standing for the code point of the
  same number (0 to 255); a \<^verbatim>\<open>dict\<close> is an association list in insertion order.
\<close>

datatype json =
    JNull
  | JInt int
  | JStr string
  | JList "json list"
  | JDict "(string \<times> json) list"

text \<open>\<^verbatim>\<open>d[k] = v\<close>: an existing key keeps its place, a new key goes last.\<close>

fun setitem :: "(string \<times> json) list \<Rightarrow> string \<Rightarrow> json \<Rightarrow> (string \<times> json) list" where
  "setitem [] k v = [(k, v)]"
| "setitem ((k', v') # d) k v = (if k' = k then (k, v) # d else (k', v') # setitem d k v)"

subsection \<open>Integers in decimal\<close>

definition digit_char :: "nat \<Rightarrow> char" where
  "digit_char d = char_of (48 + d)"

fun show_nat :: "nat \<Rightarrow> string" where
  "show_nat n = (if n < 10 then [digit_char n] else show_nat (n div 10) @ [digit_char (n mod 10)])"

declare show_nat.simps [simp del]

definition show_int :: "int \<Rightarrow> string" where
  "show_int i = (if i < 0 then CHR ''-'' # show_nat (nat (- i)) else show_nat (nat i))"

subsection \<open>String literals, as \<^verbatim>\<open>ensure_ascii=True\<close> writes them\<close>

definition hex_digit :: "nat \<Rightarrow> char" where
  "hex_digit d = (if d < 10 then char_of (48 + d) else char_of (87 + d))"

text \<open>
  \<^verbatim>\<open>py_encode_basestring_ascii\<close>: the quote and the backslash get a backslash, the five
  control characters with a short form get it, every other character outside
  \<^verbatim>\<open>' '..'~'\<close> becomes \<^verbatim>\<open>\u00xx\<close>, and the rest stands for itself.
\<close>

definition encode_char :: "char \<Rightarrow> string" where
  "encode_char c =
    (if c = CHR 0x22 then [CHR 0x5C, CHR 0x22]
     else if c = CHR 0x5C then [CHR 0x5C, CHR 0x5C]
     else if c = CHR 0x0A then [CHR 0x5C, CHR ''n'']
     else if c = CHR 0x0D then [CHR 0x5C, CHR ''r'']
     else if c = CHR 0x09 then [CHR 0x5C, CHR ''t'']
     else if c = CHR 0x08 then [CHR 0x5C, CHR ''b'']
     else if c = CHR 0x0C then [CHR 0x5C, CHR ''f'']
     else if (of_char c :: nat) < 0x20 \<or> (0x7E :: nat) < of_char c
       then [CHR 0x5C, CHR ''u'', CHR ''0'', CHR ''0'',
             hex_digit (of_char c div 16), hex_digit (of_char c mod 16)]
     else [c])"

definition encode_str :: "string \<Rightarrow> string" where
  "encode_str s = CHR 0x22 # concat (map encode_char s) @ [CHR 0x22]"

subsection \<open>\<^verbatim>\<open>json.dumps(obj, indent=...)\<close>\<close>

text \<open>
  \<open>indent = None\<close> is the compact form, items separated by \<^verbatim>\<open>", "\<close>; with
  \<open>indent = Some n\<close> every item starts a new line, indented by \<open>n\<close> spaces per level
  of nesting, and the item separator is \<^verbatim>\<open>","\<close>. The key separator is \<^verbatim>\<open>": "\<close> in both.
  An empty list is \<^verbatim>\<open>[]\<close> and an empty dictionary \<^verbatim>\<open>{}\<close> in both.
\<close>

fun newline_indent :: "nat option \<Rightarrow> nat \<Rightarrow> string" where
  "newline_indent None level = []"
| "newline_indent (Some n) level = CHR 0x0A # replicate (n * level) CHR '' ''"

fun item_separator :: "nat option \<Rightarrow> nat \<Rightarrow> string" where
  "item_separator None level = '', ''"
| "item_separator (Some n) level = CHR '','' # newline_indent (Some n) level"

fun iterencode :: "nat option \<Rightarrow> nat \<Rightarrow> json \<Rightarrow> string"
  and iterencode_list :: "nat option \<Rightarrow> nat \<Rightarrow> json list \<Rightarrow> string"
  and iterencode_dict :: "nat option \<Rightarrow> nat \<Rightarrow> (string \<times> json) list \<Rightarrow> string"
where
  "iterencode indent level JNull = ''null''"
| "iterencode indent level (JInt i) = show_int i"
| "iterencode indent level (JStr s) = encode_str s"
| "iterencode indent level (JList []) = ''[]''"
| "iterencode indent level (JList (x # xs)) =
     ''['' @ newline_indent indent (Suc level) @ iterencode_list indent (Suc level) (x # xs)
       @ newline_indent indent level @ '']''"
| "iterencode indent level (JDict []) = ''{}''"
| "iterencode indent level (JDict (kv # kvs)) =
     ''{'' @ newline_indent indent (Suc level) @ iterencode_dict indent (Suc level) (kv # kvs)
       @ newline_indent indent level @ ''}''"
| "iterencode_list indent level [] = []"
| "iterencode_list indent level [x] = iterencode indent level x"
| "iterencode_list indent level (x # y # ys) =
     iterencode indent level x @ item_separator indent level
       @ iterencode_list indent level (y # ys)"
| "iterencode_dict indent level [] = []"
| "iterencode_dict indent level [(k, v)] = encode_str k @ '': '' @ iterencode indent level v"
| "iterencode_dict indent level ((k, v) # kv # kvs) =
     encode_str k @ '': '' @ iterencode indent level v @ item_separator indent level
       @ iterencode_dict indent level (kv # kvs)"

definition json_dumps :: "nat option \<Rightarrow> json \<Rightarrow> string" where
  "json_dumps indent obj = iterencode indent 0 obj"

section \<open>Reading JSON text\<close>

text \<open>
  What it means for a string to be JSON text for a value: a reader of the JSON grammar
  (RFC 8259) for the values above, that is \<^verbatim>\<open>null\<close>, integers, strings, arrays and
  objects, with white space allowed around every token. Numbers with a fraction or an
  exponent and the literals \<^verbatim>\<open>true\<close> and \<^verbatim>\<open>false\<close> are not read; an escape
  \<^verbatim>\<open>\uxxxx\<close> is read when it names a character below 256. A text the reader accepts is
  valid JSON, and the value is what \<^verbatim>\<open>json.loads\<close> gives for it (an object as its
  members in the order of the text).
\<close>

definition is_ws :: "char \<Rightarrow> bool" where
  "is_ws c = (c = CHR '' '' \<or> c = CHR 0x09 \<or> c = CHR 0x0A \<or> c = CHR 0x0D)"

definition skip_ws :: "string \<Rightarrow> string" where
  "skip_ws s = dropWhile is_ws s"

definition is_digit :: "char \<Rightarrow> bool" where
  "is_digit c = (48 \<le> (of_char c :: nat) \<and> (of_char c :: nat) \<le> 57)"

fun read_nat :: "nat \<Rightarrow> string \<Rightarrow> nat \<times> string" where
  "read_nat acc [] = (acc, [])"
| "read_nat acc (c # cs) =
     (if is_digit c then read_nat (10 * acc + (of_char c - 48)) cs else (acc, c # cs))"

text \<open>A natural number without leading zeros: \<^verbatim>\<open>0\<close>, or a digit from 1 to 9 and more digits.\<close>

definition parse_nat :: "string \<Rightarrow> (nat \<times> string) option" where
  "parse_nat s =
    (case s of
       [] \<Rightarrow> None
     | c # cs \<Rightarrow>
        if c = CHR ''0'' then Some (0, cs)
        else if is_digit c then Some (read_nat 0 (c # cs))
        else None)"

definition hex_val :: "char \<Rightarrow> nat option" where
  "hex_val c =
    (let n = (of_char c :: nat) in
     if 48 \<le> n \<and> n \<le> 57 then Some (n - 48)
     else if 97 \<le> n \<and> n \<le> 102 then Some (n - 87)
     else if 65 \<le> n \<and> n \<le> 70 then Some (n - 55)
     else None)"

definition unescape :: "char \<Rightarrow> char option" where
  "unescape e =
    (if e = CHR 0x22 then Some (CHR 0x22)
     else if e = CHR 0x5C then Some (CHR 0x5C)
     else if e = CHR ''/'' then Some (CHR ''/'')
     else if e = CHR ''n'' then Some (CHR 0x0A)
     else if e = CHR ''r'' then Some (CHR 0x0D)
     else if e = CHR ''t'' then Some (CHR 0x09)
     else if e = CHR ''b'' then Some (CHR 0x08)
     else if e = CHR ''f'' then Some (CHR 0x0C)
     else None)"

definition cons_char :: "char \<Rightarrow> (string \<times> string) option \<Rightarrow> (string \<times> string) option" where
  "cons_char c r = (case r of None \<Rightarrow> None | Some (s, rest) \<Rightarrow> Some (c # s, rest))"

text \<open>The characters of a string literal after its opening quote, up to the closing one.\<close>

fun scanstring :: "string \<Rightarrow> (string \<times> string) option" where
  "scanstring [] = None"
| "scanstring (c # cs) =
    (if c = CHR 0x22 then Some ([], cs)
     else if c = CHR 0x5C then
       (case cs of
          [] \<Rightarrow> None
        | e # cs' \<Rightarrow>
           if e = CHR ''u'' then
             (case cs' of
                h1 # h2 # h3 # h4 # cs'' \<Rightarrow>
                  (case (hex_val h1, hex_val h2, hex_val h3, hex_val h4) of
                     (Some a, Some b, Some c', Some d) \<Rightarrow>
                       if ((a * 16 + b) * 16 + c') * 16 + d < 256
                       then cons_char (char_of (((a * 16 + b) * 16 + c') * 16 + d)) (scanstring cs'')
                       else None
                   | _ \<Rightarrow> None)
              | _ \<Rightarrow> None)
           else
             (case unescape e of
                None \<Rightarrow> None
              | Some ch \<Rightarrow> cons_char ch (scanstring cs')))
     else if (of_char c :: nat) < 0x20 then None
     else cons_char c (scanstring cs))"

text \<open>
  The reader proper. Its first argument bounds the number of nested calls; \<open>json_loads\<close>
  starts it with the length of the text.
\<close>

fun parse_value :: "nat \<Rightarrow> string \<Rightarrow> (json \<times> string) option"
  and parse_items :: "nat \<Rightarrow> string \<Rightarrow> (json list \<times> string) option"
  and parse_members :: "nat \<Rightarrow> string \<Rightarrow> ((string \<times> json) list \<times> string) option"
where
  "parse_value 0 s = None"
| "parse_value (Suc n) s =
    (case s of
       [] \<Rightarrow> None
     | c # cs \<Rightarrow>
        if c = CHR 0x22 then
          (case scanstring cs of None \<Rightarrow> None | Some (str, r) \<Rightarrow> Some (JStr str, r))
        else if c = CHR ''['' then
          (case skip_ws cs of
             [] \<Rightarrow> None
           | d # ds \<Rightarrow>
              if d = CHR '']'' then Some (JList [], ds)
              else (case parse_items n (d # ds) of
                      None \<Rightarrow> None
                    | Some (xs, r) \<Rightarrow> Some (JList xs, r)))
        else if c = CHR ''{'' then
          (case skip_ws cs of
             [] \<Rightarrow> None
           | d # ds \<Rightarrow>
              if d = CHR ''}'' then Some (JDict [], ds)
              else (case parse_members n (d # ds) of
                      None \<Rightarrow> None
                    | Some (kvs, r) \<Rightarrow> Some (JDict kvs, r)))
        else if c = CHR ''n'' then
          (if take 3 cs = ''ull'' then Some (JNull, drop 3 cs) else None)
        else if c = CHR ''-'' then
          (case parse_nat cs of None \<Rightarrow> None | Some (m, r) \<Rightarrow> Some (JInt (- int m), r))
        else
          (case parse_nat (c # cs) of None \<Rightarrow> None | Some (m, r) \<Rightarrow> Some (JInt (int m), r)))"
| "parse_items 0 s = None"
| "parse_items (Suc n) s =
    (case parse_value n s of
       None \<Rightarrow> None
     | Some (x, r) \<Rightarrow>
        (case skip_ws r of
           [] \<Rightarrow> None
         | c # cs \<Rightarrow>
            if c = CHR '']'' then Some ([x], cs)
            else if c = CHR '','' then
              (case parse_items n (skip_ws cs) of
                 None \<Rightarrow> None
               | Some (xs, r') \<Rightarrow> Some (x # xs, r'))
            else None))"
| "parse_members 0 s = None"
| "parse_members (Suc n) s =
    (case s of
       [] \<Rightarrow> None
     | q # qs \<Rightarrow>
        if q \<noteq> CHR 0x22 then None
        else
          (case scanstring qs of
             None \<Rightarrow> None
           | Some (k, r) \<Rightarrow>
              (case skip_ws r of
                 [] \<Rightarrow> None
               | c # cs \<Rightarrow>
                  if c \<noteq> CHR '':'' then None
                  else
                    (case parse_value n (skip_ws cs) of
                       None \<Rightarrow> None
                     | Some (v, r') \<Rightarrow>
                        (case skip_ws r' of
                           [] \<Rightarrow> None
                         | c' # cs' \<Rightarrow>
                            if c' = CHR ''}'' then Some ([(k, v)], cs')
                            else if c' = CHR '','' then
                              (case parse_members n (skip_ws cs') of
                                 None \<Rightarrow> None
                               | Some (kvs, r'') \<Rightarrow> Some ((k, v) # kvs, r''))
                            else None)))))"

definition json_loads :: "string \<Rightarrow> json option" where
  "json_loads s =
    (case parse_value (length s) (skip_ws s) of
       None \<Rightarrow> None
     | Some (v, r) \<Rightarrow> if skip_ws r = [] then Some v else None)"

section \<open>The search client and its answers\<close>

text \<open>
  The client library \<^verbatim>\<open>bravesearch\<close> is not part of the repository. The adapter uses
  three things of it: the constructor \<^verbatim>\<open>BraveSearch(api_key, wait_time, retries)\<close>, the
  method \<^verbatim>\<open>search\<close> with five keyword arguments, and the exception class
  \<^verbatim>\<open>BraveSearchAPIError\<close>. The client is the record of its constructor's arguments; what
  a call of \<^verbatim>\<open>search\<close> does is a parameter of the model, a function from the client and
  the request to an outcome.
\<close>

record brave_search_client =
  client_api_key :: string
  client_wait_time :: int
  client_retries :: int

record client_request =
  req_q :: string
  req_count :: int
  req_country :: string
  req_search_lang :: string
  req_result_filter :: string

text \<open>A URL object; \<^verbatim>\<open>str(result.url)\<close> gives its text.\<close>

datatype http_url = HttpUrl string

fun str_url :: "http_url \<Rightarrow> string" where
  "str_url (HttpUrl s) = s"

record search_result =
  title :: string
  url :: http_url
  description :: "string option"

record web_search =
  results :: "search_result list option"

record search_response =
  web :: "web_search option"

text \<open>
  What a call can raise, each with the text \<^verbatim>\<open>str(e)\<close> of the exception:
  the provider's own \<^verbatim>\<open>BraveSearchAPIError\<close>, any other exception of class
  \<^verbatim>\<open>Exception\<close>, and an exception outside \<^verbatim>\<open>Exception\<close> (\<^verbatim>\<open>KeyboardInterrupt\<close>,
  \<^verbatim>\<open>SystemExit\<close>), which no \<^verbatim>\<open>except Exception\<close> clause catches.
\<close>

datatype raised =
    BraveSearchAPIError string
  | Exception string
  | BaseException string

type_synonym client_search =
  "brave_search_client \<Rightarrow> client_request \<Rightarrow> raised + search_response option"

section \<open>The adapter\<close>

record brave_search_tools =
  self_api_key :: string
  self_fixed_max_results :: "int option"
  self_fixed_language :: "string option"
  self_brave_client :: brave_search_client
  toolkit_name :: string
  toolkit_tools :: "string list"

datatype config_error = ValueError string

text \<open>Truth value of an \<^verbatim>\<open>Optional[str]\<close>: \<^verbatim>\<open>None\<close> and \<^verbatim>\<open>""\<close> are false.\<close>

definition truthy :: "string option \<Rightarrow> bool" where
  "truthy s = (case s of None \<Rightarrow> False | Some v \<Rightarrow> v \<noteq> [])"

text \<open>An argument with a default value: \<open>None\<close> when the call leaves it out.\<close>

definition arg_default :: "'a \<Rightarrow> 'a option \<Rightarrow> 'a" where
  "arg_default d arg = (case arg of None \<Rightarrow> d | Some v \<Rightarrow> v)"

subsection \<open>\<^verbatim>\<open>__init__\<close>\<close>

text \<open>
  \<open>getenv\<close> is the process environment; \<^verbatim>\<open>api_key or getenv("BRAVE_API_KEY")\<close> is the
  argument when that is true and the variable otherwise. \<^verbatim>\<open>wait_time\<close> and \<^verbatim>\<open>retries\<close>
  are \<open>None\<close> when the call leaves them out, and then 5 and 3. The result is paired with
  the clients the constructor \<^verbatim>\<open>BraveSearch\<close> has been called for, in order. The base
  class \<^verbatim>\<open>Toolkit\<close> is not part of the repository: of its constructor the model keeps the
  name and the one tool it is given, and leaves the other keyword arguments out.
\<close>

definition init ::
  "(string \<Rightarrow> string option) \<Rightarrow> string option \<Rightarrow> int option \<Rightarrow> string option
    \<Rightarrow> int option \<Rightarrow> int option
    \<Rightarrow> brave_search_client list \<times> (config_error + brave_search_tools)" where
  "init getenv api_key fixed_max_results fixed_language wait_time retries =
    (let key = (if truthy api_key then api_key else getenv ''BRAVE_API_KEY'') in
     case key of
       None \<Rightarrow>
         ([], Inl (ValueError
           ''BRAVE_API_KEY is required. Please set the BRAVE_API_KEY environment variable.''))
     | Some k \<Rightarrow>
         if k = [] then
           ([], Inl (ValueError
             ''BRAVE_API_KEY is required. Please set the BRAVE_API_KEY environment variable.''))
         else
           (let client = \<lparr>client_api_key = k,
                          client_wait_time = arg_default 5 wait_time,
                          client_retries = arg_default 3 retries\<rparr>
            in ([client],
                Inr \<lparr>self_api_key = k,
                     self_fixed_max_results = fixed_max_results,
                     self_fixed_language = fixed_language,
                     self_brave_client = client,
                     toolkit_name = ''brave_search'',
                     toolkit_tools = [''brave_search'']\<rparr>)))"

subsection \<open>\<^verbatim>\<open>brave_search\<close>\<close>

datatype event =
    LogInfo string
  | LogError string
  | ClientSearch brave_search_client client_request

fun client_calls :: "event list \<Rightarrow> client_request list" where
  "client_calls [] = []"
| "client_calls (ClientSearch c r # es) = r # client_calls es"
| "client_calls (e # es) = client_calls es"

definition web_result :: "search_result \<Rightarrow> json" where
  "web_result result =
    JDict [(''title'', JStr (title result)),
           (''url'', JStr (str_url (url result))),
           (''description'', (case description result of None \<Rightarrow> JNull | Some d \<Rightarrow> JStr d))]"

text \<open>The loop over \<^verbatim>\<open>search_results.web.results\<close>, appending to \<^verbatim>\<open>web_results\<close>.\<close>

fun append_web_results :: "search_result list \<Rightarrow> json list \<Rightarrow> json list" where
  "append_web_results [] web_results = web_results"
| "append_web_results (result # rest) web_results =
     append_web_results rest (web_results @ [web_result result])"

text \<open>
  The test \<^verbatim>\<open>search_results and search_results.web and search_results.web.results\<close>
  gives the list when all three are true (the last a non-empty list), and nothing otherwise.
\<close>

definition nonempty_results :: "search_response option \<Rightarrow> search_result list option" where
  "nonempty_results search_results =
    (case search_results of
       None \<Rightarrow> None
     | Some r \<Rightarrow>
        (case web r of
           None \<Rightarrow> None
         | Some w \<Rightarrow>
            (case results w of
               None \<Rightarrow> None
             | Some rs \<Rightarrow> if rs = [] then None else Some rs)))"

definition filtered_results :: "string \<Rightarrow> search_response option \<Rightarrow> (string \<times> json) list" where
  "filtered_results query search_results =
    (let filtered = [(''web_results'', JList []), (''query'', JStr query), (''total_results'', JInt 0)]
     in case nonempty_results search_results of
          None \<Rightarrow> filtered
        | Some rs \<Rightarrow>
           (let web_results = append_web_results rs [] in
            setitem (setitem filtered ''web_results'' (JList web_results))
              ''total_results'' (JInt (int (length web_results)))))"

text \<open>
  The body of \<^verbatim>\<open>brave_search\<close>, all arguments given. \<open>query\<close> is an \<^verbatim>\<open>Optional[str]\<close>:
  the test \<^verbatim>\<open>not query\<close> holds of \<^verbatim>\<open>None\<close> and of \<^verbatim>\<open>""\<close>. The result is the trace of
  the log entries and client calls made, in order, and either the string returned or the
  exception that leaves the method. The two \<^verbatim>\<open>except\<close> clauses are the cases of the
  client's outcome; the logger is taken not to raise.
\<close>

definition brave_search_body ::
  "brave_search_tools \<Rightarrow> client_search \<Rightarrow> string option \<Rightarrow> int \<Rightarrow> string \<Rightarrow> string
    \<Rightarrow> event list \<times> (raised + string)" where
  "brave_search_body self search query max_results country search_lang =
    (let final_max_results =
           (case self_fixed_max_results self of Some n \<Rightarrow> n | None \<Rightarrow> max_results);
         final_search_lang =
           (case self_fixed_language self of Some l \<Rightarrow> l | None \<Rightarrow> search_lang)
     in
     case query of
       None \<Rightarrow>
         ([], Inr (json_dumps None (JDict [(''error'', JStr ''Please provide a query to search for'')])))
     | Some q \<Rightarrow>
         if q = [] then
           ([], Inr (json_dumps None (JDict [(''error'', JStr ''Please provide a query to search for'')])))
         else
           (let request = \<lparr>req_q = q, req_count = final_max_results, req_country = country,
                           req_search_lang = final_search_lang, req_result_filter = ''web''\<rparr>;
                trace = [LogInfo (''Searching Brave for: '' @ q),
                         ClientSearch (self_brave_client self) request]
            in
            case search (self_brave_client self) request of
              Inr search_results \<Rightarrow>
                (trace, Inr (json_dumps (Some 2) (JDict (filtered_results q search_results))))
            | Inl (BraveSearchAPIError e) \<Rightarrow>
                (trace @ [LogError (''Brave Search API error for query '' @ [CHR 0x27] @ q
                                     @ [CHR 0x27] @ '': '' @ e)],
                 Inr (json_dumps None (JDict [(''error'', JStr (''Brave Search API error: '' @ e))])))
            | Inl (Exception e) \<Rightarrow>
                (trace @ [LogError (''An unexpected error occurred during Brave search for query ''
                                     @ [CHR 0x27] @ q @ [CHR 0x27] @ '': '' @ e)],
                 Inr (json_dumps None (JDict [(''error'', JStr (''An unexpected error occurred: '' @ e))])))
            | Inl (BaseException e) \<Rightarrow> (trace, Inl (BaseException e))))"

text \<open>
  The method as it is called: \<^verbatim>\<open>max_results\<close>, \<^verbatim>\<open>country\<close> and \<^verbatim>\<open>search_lang\<close> may be
  left out, and then have the defaults 5, \<^verbatim>\<open>"US"\<close> and \<^verbatim>\<open>"en"\<close>.
\<close>

definition brave_search ::
  "brave_search_tools \<Rightarrow> client_search \<Rightarrow> string option \<Rightarrow> int option \<Rightarrow> string option
    \<Rightarrow> string option \<Rightarrow> event list \<times> (raised + string)" where
  "brave_search self search query max_results country search_lang =
    brave_search_body self search query
      (arg_default 5 max_results) (arg_default ''US'' country) (arg_default ''en'' search_lang)"

section \<open>What the specification speaks of\<close>

text \<open>
  The web results of a response in the provider's order: those of its web section, and
  none when the response, its web section or the list of results is missing.
\<close>

definition provider_results :: "search_response option \<Rightarrow> search_result list" where
  "provider_results search_results =
    (case search_results of
       None \<Rightarrow> []
     | Some r \<Rightarrow> (case web r of None \<Rightarrow> [] | Some w \<Rightarrow> (case results w of None \<Rightarrow> [] | Some rs \<Rightarrow> rs)))"

text \<open>
  The request of the specification's override rule: the fixed count and language of the
  configuration when they are set, the arguments of the call otherwise (5 and \<^verbatim>\<open>"en"\<close>
  when the call leaves them out); the country of the call (\<^verbatim>\<open>"US"\<close> when left out); the
  result filter \<^verbatim>\<open>"web"\<close>.
\<close>

definition effective_request ::
  "brave_search_tools \<Rightarrow> string \<Rightarrow> int option \<Rightarrow> string option \<Rightarrow> string option \<Rightarrow> client_request" where
  "effective_request self q max_results country search_lang =
    \<lparr>req_q = q,
     req_count = (case self_fixed_max_results self of
                    Some n \<Rightarrow> n
                  | None \<Rightarrow> (case max_results of Some m \<Rightarrow> m | None \<Rightarrow> 5)),
     req_country = (case country of Some c \<Rightarrow> c | None \<Rightarrow> ''US''),
     req_search_lang = (case self_fixed_language self of
                          Some l \<Rightarrow> l
                        | None \<Rightarrow> (case search_lang of Some l \<Rightarrow> l | None \<Rightarrow> ''en'')),
     req_result_filter = ''web''\<rparr>"

text \<open>
  The two shapes of a payload: an object with exactly the keys \<^verbatim>\<open>web_results\<close> (a list),
  \<^verbatim>\<open>query\<close> (a string) and \<^verbatim>\<open>total_results\<close> (an integer), or an object with exactly
  the key \<^verbatim>\<open>error\<close> (a string).
\<close>

definition has_keys :: "(string \<times> json) list \<Rightarrow> string list \<Rightarrow> bool" where
  "has_keys d ks = (distinct (map fst d) \<and> set (map fst d) = set ks)"

definition is_success_payload :: "json \<Rightarrow> bool" where
  "is_success_payload p =
    (case p of
       JDict d \<Rightarrow>
         has_keys d [''web_results'', ''query'', ''total_results'']
         \<and> (case map_of d ''web_results'' of Some (JList ws) \<Rightarrow> True | _ \<Rightarrow> False)
         \<and> (case map_of d ''query'' of Some (JStr q) \<Rightarrow> True | _ \<Rightarrow> False)
         \<and> (case map_of d ''total_results'' of Some (JInt n) \<Rightarrow> True | _ \<Rightarrow> False)
     | _ \<Rightarrow> False)"

definition is_error_payload :: "json \<Rightarrow> bool" where
  "is_error_payload p =
    (case p of
       JDict d \<Rightarrow>
         has_keys d [''error'']
         \<and> (case map_of d ''error'' of Some (JStr e) \<Rightarrow> True | _ \<Rightarrow> False)
     | _ \<Rightarrow> False)"

subsection \<open>Example values\<close>

definition example_tools :: brave_search_tools where
  "example_tools =
    \<lparr>self_api_key = ''BSA-key'',
     self_fixed_max_results = None,
     self_fixed_language = None,
     self_brave_client = \<lparr>client_api_key = ''BSA-key'', client_wait_time = 5, client_retries = 3\<rparr>,
     toolkit_name = ''brave_search'',
     toolkit_tools = [''brave_search'']\<rparr>"

definition example_getenv :: "string \<Rightarrow> string option" where
  "example_getenv name = (if name = ''BRAVE_API_KEY'' then Some ''BSA-env'' else None)"

definition example_response :: "search_response option" where
  "example_response =
    Some \<lparr>web = Some \<lparr>results = Some
      [\<lparr>title = ''Isabelle'', url = HttpUrl ''https://isabelle.in.tum.de'', description = Some ''A proof assistant''\<rparr>,
       \<lparr>title = ''HOL'', url = HttpUrl ''https://example.org/hol'', description = None\<rparr>]\<rparr>\<rparr>"

definition example_payload :: json where
  "example_payload =
    JDict [(''web_results'', JList
             [JDict [(''title'', JStr ''Isabelle''), (''url'', JStr ''https://isabelle.in.tum.de''),
                     (''description'', JStr ''A proof assistant'')],
              JDict [(''title'', JStr ''HOL''), (''url'', JStr ''https://example.org/hol''),
                     (''description'', JNull)]]),
           (''query'', JStr ''hol''),
           (''total_results'', JInt 2)]"

section \<open>The reader reads back what \<^verbatim>\<open>json.dumps\<close> writes\<close>

text \<open>
  A number is read to its end when no digit follows it; every value's text starts with a
  character that tells what the value is.
\<close>

definition no_digit_ahead :: "string \<Rightarrow> bool" where
  "no_digit_ahead rest = (case rest of [] \<Rightarrow> True | c # cs \<Rightarrow> \<not> is_digit c)"

definition value_start :: "char \<Rightarrow> bool" where
  "value_start c =
    (c = CHR 0x22 \<or> c = CHR ''['' \<or> c = CHR ''{'' \<or> c = CHR ''n'' \<or> c = CHR ''-'' \<or> is_digit c)"

subsection \<open>Numbers\<close>

lemma of_char_digit_char: "d < 10 \<Longrightarrow> (of_char (digit_char d) :: nat) = 48 + d"
  by (simp add: digit_char_def)

lemma is_digit_digit_char: "d < 10 \<Longrightarrow> is_digit (digit_char d)"
  by (simp add: is_digit_def of_char_digit_char)

lemma read_nat_digit_char:
  "d < 10 \<Longrightarrow> read_nat acc (digit_char d # rest) = read_nat (10 * acc + d) rest"
  by (simp add: is_digit_digit_char of_char_digit_char)

lemma read_nat_show_nat:
  "read_nat acc (show_nat n @ rest) = read_nat (acc * 10 ^ length (show_nat n) + n) rest"
proof (induction n arbitrary: acc rest rule: show_nat.induct)
  case (1 n)
  show ?case
  proof (cases "n < 10")
    case True
    then show ?thesis
      by (simp add: show_nat.simps [of n] is_digit_digit_char of_char_digit_char mult.commute)
  next
    case False
    have "read_nat acc (show_nat n @ rest) =
          read_nat acc (show_nat (n div 10) @ digit_char (n mod 10) # rest)"
      using False by (simp add: show_nat.simps [of n])
    also have "\<dots> = read_nat (acc * 10 ^ length (show_nat (n div 10)) + n div 10)
                        (digit_char (n mod 10) # rest)"
      using False by (rule "1.IH")
    also have "\<dots> = read_nat (10 * (acc * 10 ^ length (show_nat (n div 10)) + n div 10) + n mod 10) rest"
      by (rule read_nat_digit_char) simp
    also have "10 * (acc * 10 ^ length (show_nat (n div 10)) + n div 10) + n mod 10
               = acc * 10 ^ length (show_nat n) + n"
      using False by (simp add: show_nat.simps [of n] algebra_simps)
    finally show ?thesis .
  qed
qed

lemma read_nat_stop: "no_digit_ahead rest \<Longrightarrow> read_nat acc rest = (acc, rest)"
  by (cases rest) (simp_all add: no_digit_ahead_def)

lemma show_nat_first:
  "\<exists>c cs. show_nat n = c # cs \<and> is_digit c \<and> (c = CHR ''0'' \<longrightarrow> n = 0 \<and> cs = [])"
proof (induction n rule: show_nat.induct)
  case (1 n)
  show ?case
  proof (cases "n < 10")
    case True
    have "digit_char n = CHR ''0'' \<Longrightarrow> n = 0"
    proof -
      assume "digit_char n = CHR ''0''"
      then have "(of_char (digit_char n) :: nat) = of_char (CHR ''0'')" by simp
      with True show "n = 0" by (simp add: of_char_digit_char)
    qed
    with True show ?thesis
      by (simp add: show_nat.simps [of n] is_digit_digit_char)
  next
    case False
    then obtain c cs where h: "show_nat (n div 10) = c # cs" "is_digit c"
      "c = CHR ''0'' \<longrightarrow> n div 10 = 0 \<and> cs = []"
      using "1.IH" by blast
    from False have "n div 10 \<noteq> 0" by simp
    with h False show ?thesis
      by (simp add: show_nat.simps [of n])
  qed
qed

lemma parse_nat_show_nat:
  assumes "no_digit_ahead rest"
  shows "parse_nat (show_nat n @ rest) = Some (n, rest)"
proof -
  obtain c cs where h: "show_nat n = c # cs" "is_digit c" "c = CHR ''0'' \<longrightarrow> n = 0 \<and> cs = []"
    using show_nat_first by blast
  show ?thesis
  proof (cases "c = CHR ''0''")
    case True
    with h show ?thesis by (simp add: parse_nat_def)
  next
    case False
    have "read_nat 0 (show_nat n @ rest) = (n, rest)"
      by (simp add: read_nat_show_nat read_nat_stop assms)
    with h False show ?thesis by (simp add: parse_nat_def)
  qed
qed

subsection \<open>String literals\<close>

lemma hex_val_hex_digit: "d < 16 \<Longrightarrow> hex_val (hex_digit d) = Some d"
  by (simp add: hex_val_def hex_digit_def Let_def)

lemma hex_val_zero: "hex_val (CHR ''0'') = Some 0"
  by (simp add: hex_val_def)

lemma scanstring_encode_char:
  "scanstring (encode_char c @ s) = cons_char c (scanstring s)"
proof -
  have n: "(of_char c :: nat) < 256" by simp
  have "(of_char c :: nat) div 16 < 16"
    using n by arith
  then have h1: "hex_val (hex_digit (of_char c div 16)) = Some (of_char c div 16)"
    by (rule hex_val_hex_digit)
  have h2: "hex_val (hex_digit (of_char c mod 16)) = Some (of_char c mod 16)"
    by (rule hex_val_hex_digit) simp
  show ?thesis
    by (simp add: encode_char_def unescape_def h1 h2 hex_val_zero)
qed

lemma scanstring_encode_chars:
  "scanstring (concat (map encode_char s) @ CHR 0x22 # rest) = Some (s, rest)"
  by (induction s) (simp_all add: scanstring_encode_char cons_char_def)

subsection \<open>White space\<close>

lemma skip_ws_ws: "list_all is_ws w \<Longrightarrow> skip_ws (w @ s) = skip_ws s"
  by (induction w) (simp_all add: skip_ws_def)

lemma skip_ws_stop: "\<not> is_ws c \<Longrightarrow> skip_ws (c # s) = c # s"
  by (simp add: skip_ws_def)

lemma skip_ws_upto: "list_all is_ws w \<Longrightarrow> \<not> is_ws c \<Longrightarrow> skip_ws (w @ c # s) = c # s"
  by (simp add: skip_ws_ws skip_ws_stop)

lemma newline_indent_ws: "list_all is_ws (newline_indent indent level)"
  by (cases indent) (simp_all add: is_ws_def list_all_iff)

lemma item_separator_ws:
  "\<exists>w. item_separator indent level = CHR '','' # w \<and> list_all is_ws w"
  by (cases indent) (simp_all add: is_ws_def list_all_iff)

lemma no_digit_ahead_ws: "list_all is_ws w \<Longrightarrow> \<not> is_digit c \<Longrightarrow> no_digit_ahead (w @ c # s)"
  by (cases w) (auto simp: no_digit_ahead_def is_ws_def is_digit_def)

subsection \<open>The first character of a value's text\<close>

lemma value_start_not:
  "value_start c \<Longrightarrow> \<not> is_ws c \<and> c \<noteq> CHR '']'' \<and> c \<noteq> CHR ''}'' \<and> c \<noteq> CHR '','' \<and> c \<noteq> CHR '':''"
  by (auto simp: value_start_def is_ws_def is_digit_def)

lemma show_int_start: "\<exists>c cs. show_int i = c # cs \<and> value_start c"
proof (cases "i < 0")
  case True
  then show ?thesis by (simp add: show_int_def value_start_def)
next
  case False
  obtain c cs where "show_nat (nat i) = c # cs" "is_digit c"
    using show_nat_first by blast
  with False show ?thesis by (simp add: show_int_def value_start_def)
qed

lemma iterencode_start: "\<exists>c cs. iterencode indent level v = c # cs \<and> value_start c"
proof (cases v)
  case (JInt i)
  then show ?thesis using show_int_start by simp
next
  case (JList xs)
  then show ?thesis by (cases xs) (simp_all add: value_start_def)
next
  case (JDict kvs)
  then show ?thesis by (cases kvs) (simp_all add: value_start_def)
qed (simp_all add: value_start_def encode_str_def)

lemma iterencode_list_start:
  "xs \<noteq> [] \<Longrightarrow> \<exists>c cs. iterencode_list indent level xs = c # cs \<and> value_start c"
proof (cases xs)
  case (Cons x ys)
  obtain c cs where "iterencode indent level x = c # cs" "value_start c"
    using iterencode_start by blast
  with Cons show ?thesis by (cases ys) simp_all
qed simp

lemma iterencode_dict_start:
  "kvs \<noteq> [] \<Longrightarrow> \<exists>cs. iterencode_dict indent level kvs = CHR 0x22 # cs"
proof (cases kvs)
  case (Cons kv rest)
  then show ?thesis by (cases kv; cases rest) (simp_all add: encode_str_def)
qed simp

lemma iterencode_nonempty: "0 < length (iterencode indent level v)"
  using iterencode_start [of indent level v] by auto

subsection \<open>One step of the reader\<close>

lemma parse_value_str:
  "0 < n \<Longrightarrow> parse_value n (encode_str s @ rest) = Some (JStr s, rest)"
  by (cases n) (simp_all add: encode_str_def scanstring_encode_chars)

lemma parse_value_null:
  "0 < n \<Longrightarrow> parse_value n (''null'' @ rest) = Some (JNull, rest)"
  by (cases n) simp_all

lemma parse_value_int:
  assumes "0 < n" and "no_digit_ahead rest"
  shows "parse_value n (show_int i @ rest) = Some (JInt i, rest)"
proof -
  obtain m where n: "n = Suc m" using assms(1) by (cases n) auto
  show ?thesis
  proof (cases "i < 0")
    case True
    then show ?thesis
      by (simp add: n show_int_def parse_nat_show_nat assms(2))
  next
    case False
    obtain c cs where h: "show_nat (nat i) = c # cs" "is_digit c"
      using show_nat_first by blast
    from h(2) have c: "c \<noteq> CHR 0x22" "c \<noteq> CHR ''[''" "c \<noteq> CHR ''{''" "c \<noteq> CHR ''n''" "c \<noteq> CHR ''-''"
      by (auto simp: is_digit_def)
    have "parse_nat (c # cs @ rest) = Some (nat i, rest)"
      using parse_nat_show_nat [OF assms(2), of "nat i"] h(1) by simp
    with False c h(1) show ?thesis
      by (simp add: n show_int_def)
  qed
qed

lemma parse_value_empty_list:
  "0 < n \<Longrightarrow> parse_value n (''[]'' @ rest) = Some (JList [], rest)"
  by (cases n) (simp_all add: skip_ws_def is_ws_def)

lemma parse_value_empty_dict:
  "0 < n \<Longrightarrow> parse_value n (''{}'' @ rest) = Some (JDict [], rest)"
  by (cases n) (simp_all add: skip_ws_def is_ws_def)

lemma parse_value_list:
  assumes items: "parse_items n (c # cs) = Some (xs, rest)"
    and c: "value_start c" and w: "list_all is_ws w"
  shows "parse_value (Suc n) (CHR ''['' # w @ c # cs) = Some (JList xs, rest)"
  using value_start_not [OF c] items by (simp add: skip_ws_upto [OF w])

lemma parse_value_dict:
  assumes members: "parse_members n (CHR 0x22 # cs) = Some (kvs, rest)"
    and w: "list_all is_ws w"
  shows "parse_value (Suc n) (CHR ''{'' # w @ CHR 0x22 # cs) = Some (JDict kvs, rest)"
proof -
  have "skip_ws (w @ CHR 0x22 # cs) = CHR 0x22 # cs"
    by (rule skip_ws_upto [OF w]) (simp add: is_ws_def)
  with members show ?thesis by simp
qed

lemma parse_items_last:
  assumes x: "parse_value n (t @ w @ CHR '']'' # rest) = Some (x, w @ CHR '']'' # rest)"
    and w: "list_all is_ws w"
  shows "parse_items (Suc n) (t @ w @ CHR '']'' # rest) = Some ([x], rest)"
proof -
  have "skip_ws (w @ CHR '']'' # rest) = CHR '']'' # rest"
    by (rule skip_ws_upto [OF w]) (simp add: is_ws_def)
  with x show ?thesis by simp
qed

lemma parse_items_more:
  assumes x: "parse_value n (t @ CHR '','' # w @ c # cs) = Some (x, CHR '','' # w @ c # cs)"
    and w: "list_all is_ws w" and c: "value_start c"
    and xs: "parse_items n (c # cs) = Some (xs, rest)"
  shows "parse_items (Suc n) (t @ CHR '','' # w @ c # cs) = Some (x # xs, rest)"
proof -
  have 1: "skip_ws (CHR '','' # w @ c # cs) = CHR '','' # w @ c # cs"
    by (rule skip_ws_stop) (simp add: is_ws_def)
  have 2: "skip_ws (w @ c # cs) = c # cs"
    using value_start_not [OF c] by (simp add: skip_ws_upto [OF w])
  from x xs show ?thesis by (simp add: 1 2)
qed

lemma parse_members_last:
  assumes v: "parse_value n (t @ w @ CHR ''}'' # rest) = Some (v, w @ CHR ''}'' # rest)"
    and w: "list_all is_ws w" and t: "t = c # cs" "value_start c"
  shows "parse_members (Suc n) (encode_str k @ '': '' @ t @ w @ CHR ''}'' # rest)
         = Some ([(k, v)], rest)"
proof -
  have 1: "skip_ws (w @ CHR ''}'' # rest) = CHR ''}'' # rest"
    by (rule skip_ws_upto [OF w]) (simp add: is_ws_def)
  have 2: "skip_ws (CHR '' '' # t @ w @ CHR ''}'' # rest) = t @ w @ CHR ''}'' # rest"
    using value_start_not [OF t(2)] skip_ws_upto [of "'' ''" c "cs @ w @ CHR ''}'' # rest"]
    by (simp add: t(1) is_ws_def)
  have 3: "skip_ws ('': '' @ t @ w @ CHR ''}'' # rest) = '': '' @ t @ w @ CHR ''}'' # rest"
    by (simp add: skip_ws_def is_ws_def)
  from v show ?thesis
    using 2 3 by (simp add: encode_str_def scanstring_encode_chars 1)
qed

lemma parse_members_more:
  assumes v: "parse_value n (t @ CHR '','' # w @ CHR 0x22 # ms) = Some (v, CHR '','' # w @ CHR 0x22 # ms)"
    and w: "list_all is_ws w" and t: "t = c # cs" "value_start c"
    and kvs: "parse_members n (CHR 0x22 # ms) = Some (kvs, rest)"
  shows "parse_members (Suc n) (encode_str k @ '': '' @ t @ CHR '','' # w @ CHR 0x22 # ms)
         = Some ((k, v) # kvs, rest)"
proof -
  have 1: "skip_ws (CHR '','' # w @ CHR 0x22 # ms) = CHR '','' # w @ CHR 0x22 # ms"
    by (rule skip_ws_stop) (simp add: is_ws_def)
  have 2: "skip_ws (CHR '' '' # t @ CHR '','' # w @ CHR 0x22 # ms) = t @ CHR '','' # w @ CHR 0x22 # ms"
    using value_start_not [OF t(2)] skip_ws_upto [of "'' ''" c "cs @ CHR '','' # w @ CHR 0x22 # ms"]
    by (simp add: t(1) is_ws_def)
  have 3: "skip_ws ('': '' @ t @ CHR '','' # w @ CHR 0x22 # ms) = '': '' @ t @ CHR '','' # w @ CHR 0x22 # ms"
    by (simp add: skip_ws_def is_ws_def)
  have 4: "skip_ws (w @ CHR 0x22 # ms) = CHR 0x22 # ms"
    by (rule skip_ws_upto [OF w]) (simp add: is_ws_def)
  from v kvs show ?thesis
    using 2 3 by (simp add: encode_str_def scanstring_encode_chars 1 4)
qed

subsection \<open>Values, lists and dictionaries\<close>

text \<open>
  By induction along \<open>iterencode\<close>: the reader, given at least as many nested calls as
  the text is long, reads the text of a value back to the value and stops behind it.
\<close>

lemma parse_iterencode:
  "\<forall>n rest. length (iterencode indent level v) \<le> n \<longrightarrow> no_digit_ahead rest \<longrightarrow>
     parse_value n (iterencode indent level v @ rest) = Some (v, rest)"
  "xs \<noteq> [] \<longrightarrow>
    (\<forall>n w rest. length (iterencode_list indent level xs) < n \<longrightarrow> list_all is_ws w \<longrightarrow>
       parse_items n (iterencode_list indent level xs @ w @ CHR '']'' # rest) = Some (xs, rest))"
  "kvs \<noteq> [] \<longrightarrow>
    (\<forall>n w rest. length (iterencode_dict indent level kvs) \<le> n \<longrightarrow> list_all is_ws w \<longrightarrow>
       parse_members n (iterencode_dict indent level kvs @ w @ CHR ''}'' # rest) = Some (kvs, rest))"
proof (induction indent level v and indent level xs and indent level kvs
    rule: iterencode_iterencode_list_iterencode_dict.induct)
  case (1 indent level)
  show ?case using parse_value_null by simp
next
  case (2 indent level i)
  show ?case
  proof (intro allI impI)
    fix n rest
    assume len: "length (iterencode indent level (JInt i)) \<le> n" and rest: "no_digit_ahead rest"
    have "0 < n" using len iterencode_nonempty [of indent level "JInt i"] by arith
    then show "parse_value n (iterencode indent level (JInt i) @ rest) = Some (JInt i, rest)"
      using rest by (simp add: parse_value_int)
  qed
next
  case (3 indent level s)
  show ?case
  proof (intro allI impI)
    fix n rest
    assume len: "length (iterencode indent level (JStr s)) \<le> n"
    have "0 < n" using len iterencode_nonempty [of indent level "JStr s"] by arith
    then show "parse_value n (iterencode indent level (JStr s) @ rest) = Some (JStr s, rest)"
      by (simp add: parse_value_str)
  qed
next
  case (4 indent level)
  show ?case using parse_value_empty_list by simp
next
  case (5 indent level x xs)
  let ?its = "iterencode_list indent (Suc level) (x # xs)"
  let ?w1 = "newline_indent indent (Suc level)"
  let ?w0 = "newline_indent indent level"
  show ?case
  proof (intro allI impI)
    fix n rest
    assume len: "length (iterencode indent level (JList (x # xs))) \<le> n"
    then obtain m where n: "n = Suc m" by (cases n) auto
    obtain c cs where its: "?its = c # cs" and c: "value_start c"
      using iterencode_list_start [of "x # xs" indent "Suc level"] by auto
    have "length ?its < m" using len n by simp
    then have "parse_items m (?its @ ?w0 @ CHR '']'' # rest) = Some (x # xs, rest)"
      using "5.IH" newline_indent_ws by blast
    then have "parse_items m (c # cs @ ?w0 @ CHR '']'' # rest) = Some (x # xs, rest)"
      by (simp add: its)
    from parse_value_list [OF this c newline_indent_ws [of indent "Suc level"]]
    show "parse_value n (iterencode indent level (JList (x # xs)) @ rest)
          = Some (JList (x # xs), rest)"
      by (simp add: n its)
  qed
next
  case (6 indent level)
  show ?case using parse_value_empty_dict by simp
next
  case (7 indent level kv kvs)
  let ?ms = "iterencode_dict indent (Suc level) (kv # kvs)"
  let ?w0 = "newline_indent indent level"
  show ?case
  proof (intro allI impI)
    fix n rest
    assume len: "length (iterencode indent level (JDict (kv # kvs))) \<le> n"
    then obtain m where n: "n = Suc m" by (cases n) auto
    obtain cs where ms: "?ms = CHR 0x22 # cs"
      using iterencode_dict_start [of "kv # kvs" indent "Suc level"] by auto
    have "length ?ms \<le> m" using len n by simp
    then have "parse_members m (?ms @ ?w0 @ CHR ''}'' # rest) = Some (kv # kvs, rest)"
      using "7.IH" newline_indent_ws by blast
    then have "parse_members m (CHR 0x22 # cs @ ?w0 @ CHR ''}'' # rest) = Some (kv # kvs, rest)"
      by (simp add: ms)
    from parse_value_dict [OF this newline_indent_ws [of indent "Suc level"]]
    show "parse_value n (iterencode indent level (JDict (kv # kvs)) @ rest)
          = Some (JDict (kv # kvs), rest)"
      by (simp add: n ms)
  qed
next
  case (8 indent level)
  show ?case by simp
next
  case (9 indent level x)
  show ?case
  proof (intro allI impI)
    fix n w rest
    assume len: "length (iterencode_list indent level [x]) < n" and w: "list_all is_ws w"
    then obtain m where n: "n = Suc m" by (cases n) auto
    have "no_digit_ahead (w @ CHR '']'' # rest)"
      by (rule no_digit_ahead_ws [OF w]) (simp add: is_digit_def)
    moreover have "length (iterencode indent level x) \<le> m" using len n by simp
    ultimately have "parse_value m (iterencode indent level x @ w @ CHR '']'' # rest)
                     = Some (x, w @ CHR '']'' # rest)"
      using "9.IH" by blast
    from parse_items_last [OF this w]
    show "parse_items n (iterencode_list indent level [x] @ w @ CHR '']'' # rest) = Some ([x], rest)"
      by (simp add: n)
  qed
next
  case (10 indent level x y ys)
  let ?t = "iterencode indent level x"
  let ?its = "iterencode_list indent level (y # ys)"
  show ?case
  proof (intro allI impI)
    fix n w rest
    assume len: "length (iterencode_list indent level (x # y # ys)) < n" and w: "list_all is_ws w"
    then obtain m where n: "n = Suc m" by (cases n) auto
    obtain sw where sep: "item_separator indent level = CHR '','' # sw" and sw: "list_all is_ws sw"
      using item_separator_ws by blast
    obtain c cs where its: "?its = c # cs" and c: "value_start c"
      using iterencode_list_start [of "y # ys" indent level] by auto
    let ?tail = "cs @ w @ CHR '']'' # rest"
    have "no_digit_ahead (CHR '','' # sw @ c # ?tail)"
      by (simp add: no_digit_ahead_def is_digit_def)
    moreover have "length ?t \<le> m" using len n by simp
    ultimately have x: "parse_value m (?t @ CHR '','' # sw @ c # ?tail)
                        = Some (x, CHR '','' # sw @ c # ?tail)"
      using "10.IH"(1) by blast
    have "length ?its < m" using len n iterencode_nonempty [of indent level x] by (simp add: sep)
    then have "parse_items m (?its @ w @ CHR '']'' # rest) = Some (y # ys, rest)"
      using "10.IH"(2) w by blast
    then have "parse_items m (c # ?tail) = Some (y # ys, rest)" by (simp add: its)
    from parse_items_more [OF x sw c this]
    show "parse_items n (iterencode_list indent level (x # y # ys) @ w @ CHR '']'' # rest)
          = Some (x # y # ys, rest)"
      by (simp add: n sep its)
  qed
next
  case (11 indent level)
  show ?case by simp
next
  case (12 indent level k v)
  let ?t = "iterencode indent level v"
  show ?case
  proof (intro allI impI)
    fix n w rest
    assume len: "length (iterencode_dict indent level [(k, v)]) \<le> n" and w: "list_all is_ws w"
    then obtain m where n: "n = Suc m" by (cases n) (auto simp: encode_str_def)
    obtain c cs where t: "?t = c # cs" "value_start c"
      using iterencode_start by blast
    have "no_digit_ahead (w @ CHR ''}'' # rest)"
      by (rule no_digit_ahead_ws [OF w]) (simp add: is_digit_def)
    moreover have "length ?t \<le> m" using len n by simp
    ultimately have "parse_value m (?t @ w @ CHR ''}'' # rest) = Some (v, w @ CHR ''}'' # rest)"
      using "12.IH" by blast
    from parse_members_last [OF this w t, of k]
    show "parse_members n (iterencode_dict indent level [(k, v)] @ w @ CHR ''}'' # rest)
          = Some ([(k, v)], rest)"
      by (simp add: n)
  qed
next
  case (13 indent level k v kv kvs)
  let ?t = "iterencode indent level v"
  let ?ms = "iterencode_dict indent level (kv # kvs)"
  show ?case
  proof (intro allI impI)
    fix n w rest
    assume len: "length (iterencode_dict indent level ((k, v) # kv # kvs)) \<le> n"
      and w: "list_all is_ws w"
    then obtain m where n: "n = Suc m" by (cases n) (auto simp: encode_str_def)
    obtain sw where sep: "item_separator indent level = CHR '','' # sw" and sw: "list_all is_ws sw"
      using item_separator_ws by blast
    obtain c cs where t: "?t = c # cs" "value_start c"
      using iterencode_start by blast
    obtain ms where ms: "?ms = CHR 0x22 # ms"
      using iterencode_dict_start [of "kv # kvs" indent level] by auto
    let ?tail = "ms @ w @ CHR ''}'' # rest"
    have "no_digit_ahead (CHR '','' # sw @ CHR 0x22 # ?tail)"
      by (simp add: no_digit_ahead_def is_digit_def)
    moreover have "length ?t \<le> m" using len n by simp
    ultimately have v: "parse_value m (?t @ CHR '','' # sw @ CHR 0x22 # ?tail)
                        = Some (v, CHR '','' # sw @ CHR 0x22 # ?tail)"
      using "13.IH"(1) by blast
    have "length ?ms \<le> m" using len n by (simp add: sep)
    then have "parse_members m (?ms @ w @ CHR ''}'' # rest) = Some (kv # kvs, rest)"
      using "13.IH"(2) w by blast
    then have "parse_members m (CHR 0x22 # ?tail) = Some (kv # kvs, rest)" by (simp add: ms)
    from parse_members_more [OF v sw t this, of k]
    show "parse_members n (iterencode_dict indent level ((k, v) # kv # kvs) @ w @ CHR ''}'' # rest)
          = Some ((k, v) # kv # kvs, rest)"
      by (simp add: n sep ms)
  qed
qed

lemma json_loads_json_dumps: "json_loads (json_dumps indent v) = Some v"
proof -
  obtain c cs where t: "iterencode indent 0 v = c # cs" "value_start c"
    using iterencode_start by blast
  have "parse_value (length (iterencode indent 0 v)) (iterencode indent 0 v @ []) = Some (v, [])"
    using parse_iterencode(1) [of indent 0 v, rule_format, of "length (iterencode indent 0 v)" "[]"]
    by (simp add: no_digit_ahead_def)
  moreover have "skip_ws (iterencode indent 0 v) = iterencode indent 0 v"
    using value_start_not [OF t(2)] by (simp add: t(1) skip_ws_stop)
  ultimately show ?thesis
    by (simp add: json_loads_def json_dumps_def skip_ws_def)
qed

section \<open>The adapter, step by step\<close>

lemma append_web_results_map:
  "append_web_results rs web_results = web_results @ map web_result rs"
  by (induction rs arbitrary: web_results) simp_all

lemma filtered_results_eq:
  "filtered_results q search_results =
     [(''web_results'', JList (map web_result (provider_results search_results))),
      (''query'', JStr q),
      (''total_results'', JInt (int (length (provider_results search_results))))]"
  by (simp add: filtered_results_def nonempty_results_def provider_results_def
        append_web_results_map Let_def split: option.splits)

lemma error_payload_shape:
  "is_error_payload (JDict [(''error'', JStr e)])"
  "\<not> is_success_payload (JDict [(''error'', JStr e)])"
  by (auto simp: is_error_payload_def is_success_payload_def has_keys_def)

lemma success_payload_shape:
  "is_success_payload (JDict [(''web_results'', JList ws), (''query'', JStr q), (''total_results'', JInt n)])"
  "\<not> is_error_payload (JDict [(''web_results'', JList ws), (''query'', JStr q), (''total_results'', JInt n)])"
  by (auto simp: is_error_payload_def is_success_payload_def has_keys_def)

lemma brave_search_snd:
  "snd (brave_search self search query max_results country search_lang) =
    (case query of
       None \<Rightarrow> Inr (json_dumps None (JDict [(''error'', JStr ''Please provide a query to search for'')]))
     | Some q \<Rightarrow>
        if q = [] then Inr (json_dumps None (JDict [(''error'', JStr ''Please provide a query to search for'')]))
        else
          (case search (self_brave_client self) (effective_request self q max_results country search_lang) of
             Inr search_results \<Rightarrow> Inr (json_dumps (Some 2) (JDict (filtered_results q search_results)))
           | Inl (BraveSearchAPIError e) \<Rightarrow>
               Inr (json_dumps None (JDict [(''error'', JStr (''Brave Search API error: '' @ e))]))
           | Inl (Exception e) \<Rightarrow>
               Inr (json_dumps None (JDict [(''error'', JStr (''An unexpected error occurred: '' @ e))]))
           | Inl (BaseException e) \<Rightarrow> Inl (BaseException e)))"
  by (simp add: brave_search_def brave_search_body_def effective_request_def arg_default_def Let_def
        split: option.splits sum.splits raised.splits)

lemma brave_search_calls:
  "client_calls (fst (brave_search self search query max_results country search_lang)) =
    (case query of
       None \<Rightarrow> []
     | Some q \<Rightarrow> if q = [] then [] else [effective_request self q max_results country search_lang])"
  by (simp add: brave_search_def brave_search_body_def effective_request_def arg_default_def Let_def
        split: option.splits sum.splits raised.splits)

lemma dumps_error:
  \<open>json_dumps None (JDict [(''error'', JStr e)]) = ''{"error": "'' @ concat (map encode_char e) @ ''"}''\<close>
  by (simp add: json_dumps_def encode_str_def encode_char_def)

lemma example_search_result:
  "snd (brave_search example_tools (\<lambda>c r. Inr example_response) (Some ''hol'') None None None)
     = Inr (json_dumps (Some 2) example_payload)"
  by (simp add: brave_search_snd filtered_results_eq provider_results_def example_response_def
        example_payload_def web_result_def)

lemma init_with_argument:
  "k \<noteq> [] \<Longrightarrow>
   init getenv (Some k) fixed_max_results fixed_language wait_time retries =
     ([\<lparr>client_api_key = k, client_wait_time = arg_default 5 wait_time,
        client_retries = arg_default 3 retries\<rparr>],
      Inr \<lparr>self_api_key = k,
           self_fixed_max_results = fixed_max_results,
           self_fixed_language = fixed_language,
           self_brave_client = \<lparr>client_api_key = k, client_wait_time = arg_default 5 wait_time,
                                 client_retries = arg_default 3 retries\<rparr>,
           toolkit_name = ''brave_search'',
           toolkit_tools = [''brave_search'']\<rparr>)"
  by (simp add: init_def truthy_def Let_def)

lemma init_with_environment:
  "\<not> truthy api_key \<Longrightarrow> getenv ''BRAVE_API_KEY'' = Some k \<Longrightarrow> k \<noteq> [] \<Longrightarrow>
   init getenv api_key fixed_max_results fixed_language wait_time retries =
     ([\<lparr>client_api_key = k, client_wait_time = arg_default 5 wait_time,
        client_retries = arg_default 3 retries\<rparr>],
      Inr \<lparr>self_api_key = k,
           self_fixed_max_results = fixed_max_results,
           self_fixed_language = fixed_language,
           self_brave_client = \<lparr>client_api_key = k, client_wait_time = arg_default 5 wait_time,
                                 client_retries = arg_default 3 retries\<rparr>,
           toolkit_name = ''brave_search'',
           toolkit_tools = [''brave_search'']\<rparr>)"
  by (simp add: init_def Let_def)

lemma init_without_key:
  assumes "\<not> truthy api_key" and "\<not> truthy (getenv ''BRAVE_API_KEY'')"
  shows "init getenv api_key fixed_max_results fixed_language wait_time retries =
     ([], Inl (ValueError
        ''BRAVE_API_KEY is required. Please set the BRAVE_API_KEY environment variable.''))"
proof -
  from assms(2) have "getenv ''BRAVE_API_KEY'' = None \<or> getenv ''BRAVE_API_KEY'' = Some []"
    by (cases "getenv ''BRAVE_API_KEY''") (simp_all add: truthy_def)
  then show ?thesis
    using assms(1) by (auto simp: init_def Let_def)
qed

lemma init_keeps_fixed_values:
  assumes "snd (init getenv api_key fixed_max_results fixed_language wait_time retries) = Inr built"
  shows "self_fixed_max_results built = fixed_max_results \<and> self_fixed_language built = fixed_language"
proof (cases "truthy api_key")
  case True
  then obtain k where k: "api_key = Some k" "k \<noteq> []"
    by (cases api_key) (auto simp: truthy_def)
  from assms show ?thesis
    unfolding k(1) init_with_argument [OF k(2)] by auto
next
  case False
  show ?thesis
  proof (cases "truthy (getenv ''BRAVE_API_KEY'')")
    case True
    then obtain k where k: "getenv ''BRAVE_API_KEY'' = Some k" "k \<noteq> []"
      by (cases "getenv ''BRAVE_API_KEY''") (auto simp: truthy_def)
    from assms show ?thesis
      unfolding init_with_environment [where getenv = getenv, OF False k] by auto
  next
    case True': False
    from assms show ?thesis
      unfolding init_without_key [where getenv = getenv, OF False True'] by simp
  qed
qed

text \<open>
  An exception outside \<^verbatim>\<open>Exception\<close> is caught by neither \<^verbatim>\<open>except\<close> clause and leaves
  the method; the results below are about the three other behaviours of the client.
\<close>

lemma base_exception_propagates:
  "search (self_brave_client self)
     (effective_request self (ch # q) max_results country search_lang) = Inl (BaseException e)
   \<Longrightarrow> snd (brave_search self search (Some (ch # q)) max_results country search_lang)
         = Inl (BaseException e)"
  by (simp add: brave_search_snd)

section \<open>Searching\<close>

text \<open>
  C1: in every call of \<^verbatim>\<open>brave_search\<close>, the count passed to the client is
  \<^verbatim>\<open>fixed_max_results\<close> when that is set and the \<^verbatim>\<open>max_results\<close> argument (5 by default)
  when it is not; the language passed is \<^verbatim>\<open>fixed_language\<close> when set and the
  \<^verbatim>\<open>search_lang\<close> argument otherwise; the country is the \<^verbatim>\<open>country\<close> argument, which no
  configuration overrides. A call with a non-empty query calls the client exactly once.
\<close>

theorem search_passes_effective_parameters:
  "(\<forall>r \<in> set (client_calls (fst (brave_search self search query max_results country search_lang))).
      req_count r = (case self_fixed_max_results self of
                       Some n \<Rightarrow> n
                     | None \<Rightarrow> (case max_results of Some m \<Rightarrow> m | None \<Rightarrow> 5))
    \<and> req_search_lang r = (case self_fixed_language self of
                             Some l \<Rightarrow> l
                           | None \<Rightarrow> (case search_lang of Some l \<Rightarrow> l | None \<Rightarrow> ''en''))
    \<and> req_country r = (case country of Some c \<Rightarrow> c | None \<Rightarrow> ''US''))
   \<and> (truthy query \<longrightarrow>
        length (client_calls (fst (brave_search self search query max_results country search_lang))) = 1)"
proof (cases "truthy query")
  case True
  then obtain q where "query = Some q" "q \<noteq> []"
    by (cases query) (auto simp: truthy_def)
  then show ?thesis
    by (simp add: brave_search_calls effective_request_def truthy_def)
next
  case False
  then have "client_calls (fst (brave_search self search query max_results country search_lang)) = []"
    by (cases query) (auto simp: brave_search_calls truthy_def)
  with False show ?thesis by simp
qed

theorem search_passes_effective_parameters_witness:
  "truthy (Some ''hol'')
   \<and> length (client_calls (fst (brave_search (example_tools\<lparr>self_fixed_max_results := Some 3\<rparr>)
        (\<lambda>c r. Inr None) (Some ''hol'') (Some 10) (Some ''DE'') None))) = 1
   \<and> req_count (hd (client_calls (fst (brave_search (example_tools\<lparr>self_fixed_max_results := Some 3\<rparr>)
        (\<lambda>c r. Inr None) (Some ''hol'') (Some 10) (Some ''DE'') None)))) = 3
   \<and> req_search_lang (hd (client_calls (fst (brave_search (example_tools\<lparr>self_fixed_max_results := Some 3\<rparr>)
        (\<lambda>c r. Inr None) (Some ''hol'') (Some 10) (Some ''DE'') None)))) = ''en''
   \<and> req_country (hd (client_calls (fst (brave_search (example_tools\<lparr>self_fixed_max_results := Some 3\<rparr>)
        (\<lambda>c r. Inr None) (Some ''hol'') (Some 10) (Some ''DE'') None)))) = ''DE''"
proof -
  let ?calls = "client_calls (fst (brave_search (example_tools\<lparr>self_fixed_max_results := Some 3\<rparr>)
      (\<lambda>c r. Inr None) (Some ''hol'') (Some 10) (Some ''DE'') None))"
  have t: "truthy (Some ''hol'')" by (simp add: truthy_def)
  note inst = search_passes_effective_parameters
    [of "example_tools\<lparr>self_fixed_max_results := Some 3\<rparr>" "\<lambda>c r. Inr None" "Some ''hol''"
        "Some 10" "Some ''DE''" None]
  from inst t have len: "length ?calls = 1" by blast
  then have "hd ?calls \<in> set ?calls" by (cases ?calls) auto
  with inst have "req_count (hd ?calls) = 3 \<and> req_search_lang (hd ?calls) = ''en''
      \<and> req_country (hd ?calls) = ''DE''"
    by (simp add: example_tools_def)
  with t len show ?thesis by simp
qed

text \<open>
  C2: for a query that is empty or \<^verbatim>\<open>None\<close> the method returns exactly the string
  \<^verbatim>\<open>{"error": "Please provide a query to search for"}\<close>, and its trace is empty: the
  client's \<^verbatim>\<open>search\<close> is not called (and nothing is logged).
\<close>

theorem empty_query_returns_error_without_client_call:
  \<open>\<not> truthy query \<Longrightarrow>
    brave_search self search query max_results country search_lang
      = ([], Inr ''{"error": "Please provide a query to search for"}'')
    \<and> client_calls (fst (brave_search self search query max_results country search_lang)) = []\<close>
  by (cases query)
     (simp_all add: truthy_def brave_search_def brave_search_body_def dumps_error encode_char_def)

theorem empty_query_returns_error_without_client_call_witness:
  \<open>\<not> truthy (Some []) \<and> \<not> truthy None
    \<and> brave_search example_tools (\<lambda>c r. Inr example_response) (Some []) None None None
        = ([], Inr ''{"error": "Please provide a query to search for"}'')
    \<and> brave_search example_tools (\<lambda>c r. Inr example_response) None None None None
        = ([], Inr ''{"error": "Please provide a query to search for"}'')\<close>
proof -
  have 1: "\<not> truthy (Some [])" and 2: "\<not> truthy None" by (simp_all add: truthy_def)
  show ?thesis
    using 1 2
      empty_query_returns_error_without_client_call [OF 1, of example_tools "\<lambda>c r. Inr example_response" None None None]
      empty_query_returns_error_without_client_call [OF 2, of example_tools "\<lambda>c r. Inr example_response" None None None]
    by simp
qed

text \<open>
  C3: for a non-empty query, when the client returns a response whose web section holds
  N results (none when the section or the list is missing or empty), the method returns
  the JSON text, indented by 2, of the payload whose \<^verbatim>\<open>web_results\<close> are the N results
  in the provider's order, each projected to its title, the text of its URL and its
  description, whose \<^verbatim>\<open>query\<close> is the query and whose \<^verbatim>\<open>total_results\<close> is N. The text
  reads back to that payload, and the payload is not an error payload, also when N is 0.
\<close>

theorem successful_search_returns_projected_results:
  assumes "search (self_brave_client self)
             (effective_request self (ch # q) max_results country search_lang) = Inr search_results"
  shows
    "let web_results =
           map (\<lambda>r. JDict [(''title'', JStr (title r)),
                            (''url'', JStr (str_url (url r))),
                            (''description'', (case description r of None \<Rightarrow> JNull | Some d \<Rightarrow> JStr d))])
               (provider_results search_results);
         payload = JDict [(''web_results'', JList web_results),
                          (''query'', JStr (ch # q)),
                          (''total_results'', JInt (int (length (provider_results search_results))))]
     in snd (brave_search self search (Some (ch # q)) max_results country search_lang)
          = Inr (json_dumps (Some 2) payload)
        \<and> json_loads (json_dumps (Some 2) payload) = Some payload
        \<and> length web_results = length (provider_results search_results)
        \<and> \<not> is_error_payload payload"
proof -
  have wr: "web_result
        = (\<lambda>r. JDict [(''title'', JStr (title r)),
                        (''url'', JStr (str_url (url r))),
                        (''description'', (case description r of None \<Rightarrow> JNull | Some d \<Rightarrow> JStr d))])"
    by (rule ext) (simp add: web_result_def)
  show ?thesis
    using assms
    by (simp add: brave_search_snd filtered_results_eq wr json_loads_json_dumps
          success_payload_shape Let_def)
qed

theorem successful_search_returns_projected_results_witness:
  "snd (brave_search example_tools (\<lambda>c r. Inr example_response) (Some ''hol'') None None None)
     = Inr (json_dumps (Some 2)
         (JDict [(''web_results'', JList
                   [JDict [(''title'', JStr ''Isabelle''), (''url'', JStr ''https://isabelle.in.tum.de''),
                           (''description'', JStr ''A proof assistant'')],
                    JDict [(''title'', JStr ''HOL''), (''url'', JStr ''https://example.org/hol''),
                           (''description'', JNull)]]),
                 (''query'', JStr ''hol''),
                 (''total_results'', JInt 2)]))
   \<and> snd (brave_search example_tools (\<lambda>c r. Inr (Some \<lparr>web = None\<rparr>)) (Some ''hol'') None None None)
     = Inr (json_dumps (Some 2)
         (JDict [(''web_results'', JList []), (''query'', JStr ''hol''), (''total_results'', JInt 0)]))"
  using successful_search_returns_projected_results
      [of "\<lambda>c r. Inr example_response" example_tools "CHR ''h''" "''ol''" None None None example_response]
    successful_search_returns_projected_results
      [of "\<lambda>c r. Inr (Some \<lparr>web = None\<rparr>)" example_tools "CHR ''h''" "''ol''" None None None
          "Some \<lparr>web = None\<rparr>"]
  by (simp add: Let_def provider_results_def example_response_def)

text \<open>
  C4: for a non-empty query, when the client raises \<^verbatim>\<open>BraveSearchAPIError\<close> with message
  \<open>m\<close>, the method returns the JSON text of \<^verbatim>\<open>{"error": "Brave Search API error: <m>"}\<close>
  (the characters of \<open>m\<close> escaped as JSON requires), which reads back to that payload.
  No other kind of error is told apart: any other exception of class \<^verbatim>\<open>Exception\<close> gives
  the one form \<^verbatim>\<open>{"error": "An unexpected error occurred: <m>"}\<close>.
\<close>

theorem provider_error_is_reported:
  \<open>(search (self_brave_client self)
       (effective_request self (ch # q) max_results country search_lang) = Inl (BraveSearchAPIError m)
     \<longrightarrow> snd (brave_search self search (Some (ch # q)) max_results country search_lang)
           = Inr (''{"error": "Brave Search API error: '' @ concat (map encode_char m) @ ''"}'')
         \<and> json_loads (''{"error": "Brave Search API error: '' @ concat (map encode_char m) @ ''"}'')
           = Some (JDict [(''error'', JStr (''Brave Search API error: '' @ m))]))
   \<and> (search (self_brave_client self)
         (effective_request self (ch # q) max_results country search_lang) = Inl (Exception m)
       \<longrightarrow> snd (brave_search self search (Some (ch # q)) max_results country search_lang)
           = Inr (''{"error": "An unexpected error occurred: '' @ concat (map encode_char m) @ ''"}''))\<close>
proof -
  have 1: \<open>''{"error": "Brave Search API error: '' @ concat (map encode_char m) @ ''"}''
           = json_dumps None (JDict [(''error'', JStr (''Brave Search API error: '' @ m))])\<close>
    by (simp add: dumps_error encode_char_def)
  have 2: \<open>''{"error": "An unexpected error occurred: '' @ concat (map encode_char m) @ ''"}''
           = json_dumps None (JDict [(''error'', JStr (''An unexpected error occurred: '' @ m))])\<close>
    by (simp add: dumps_error encode_char_def)
  show ?thesis
    unfolding 1 2 by (simp add: brave_search_snd json_loads_json_dumps)
qed

theorem provider_error_is_reported_witness:
  \<open>snd (brave_search example_tools (\<lambda>c r. Inl (BraveSearchAPIError ''rate limited''))
          (Some ''hol'') None None None)
     = Inr ''{"error": "Brave Search API error: rate limited"}''
   \<and> json_loads ''{"error": "Brave Search API error: rate limited"}''
     = Some (JDict [(''error'', JStr ''Brave Search API error: rate limited'')])
   \<and> snd (brave_search example_tools (\<lambda>c r. Inl (Exception ''rate limited''))
          (Some ''hol'') None None None)
     = Inr ''{"error": "An unexpected error occurred: rate limited"}''\<close>
  using provider_error_is_reported
      [of "\<lambda>c r. Inl (BraveSearchAPIError ''rate limited'')" example_tools "CHR ''h''" "''ol''"
          None None None "''rate limited''"]
    provider_error_is_reported
      [of "\<lambda>c r. Inl (Exception ''rate limited'')" example_tools "CHR ''h''" "''ol''"
          None None None "''rate limited''"]
  by (simp add: encode_char_def)

text \<open>
  C5: for a non-empty query, when the client raises an error other than
  \<^verbatim>\<open>BraveSearchAPIError\<close>, with message \<open>m\<close>, the method returns the JSON text of
  \<^verbatim>\<open>{"error": "An unexpected error occurred: <m>"}\<close>, which reads back to that payload.
\<close>

theorem unexpected_error_is_reported:
  assumes "search (self_brave_client self)
             (effective_request self (ch # q) max_results country search_lang) = Inl (Exception m)"
  shows \<open>snd (brave_search self search (Some (ch # q)) max_results country search_lang)
           = Inr (''{"error": "An unexpected error occurred: '' @ concat (map encode_char m) @ ''"}'')
         \<and> json_loads (''{"error": "An unexpected error occurred: '' @ concat (map encode_char m) @ ''"}'')
           = Some (JDict [(''error'', JStr (''An unexpected error occurred: '' @ m))])\<close>
proof -
  have 2: \<open>''{"error": "An unexpected error occurred: '' @ concat (map encode_char m) @ ''"}''
           = json_dumps None (JDict [(''error'', JStr (''An unexpected error occurred: '' @ m))])\<close>
    by (simp add: dumps_error encode_char_def)
  show ?thesis
    unfolding 2 using assms by (simp add: brave_search_snd json_loads_json_dumps)
qed

theorem unexpected_error_is_reported_witness:
  \<open>snd (brave_search example_tools (\<lambda>c r. Inl (Exception ''timeout''))
          (Some ''hol'') None None None)
     = Inr ''{"error": "An unexpected error occurred: timeout"}''\<close>
  using unexpected_error_is_reported
      [of "\<lambda>c r. Inl (Exception ''timeout'')" example_tools "CHR ''h''" "''ol''"
          None None None "''timeout''"]
  by (simp add: encode_char_def)

text \<open>
  C6: for every input and every behaviour of the client that is a return, a provider error
  or another error, the method raises nothing: it returns a string, the string is JSON
  text, and the payload it reads back to has exactly one of the two shapes, the success
  shape or the error shape.
\<close>

theorem search_always_returns_one_payload_shape:
  assumes "\<And>req e. search (self_brave_client self) req \<noteq> Inl (BaseException e)"
  shows "\<exists>s payload.
           snd (brave_search self search query max_results country search_lang) = Inr s
         \<and> json_loads s = Some payload
         \<and> (is_success_payload payload \<longleftrightarrow> \<not> is_error_payload payload)"
proof (cases "truthy query")
  case False
  then have "snd (brave_search self search query max_results country search_lang)
      = Inr (json_dumps None (JDict [(''error'', JStr ''Please provide a query to search for'')]))"
    by (cases query) (auto simp: brave_search_snd truthy_def)
  then show ?thesis
    using json_loads_json_dumps error_payload_shape by blast
next
  case True
  then obtain q where q: "query = Some q" "q \<noteq> []"
    by (cases query) (auto simp: truthy_def)
  let ?out = "search (self_brave_client self) (effective_request self q max_results country search_lang)"
  show ?thesis
  proof (cases ?out)
    case (Inr search_results)
    then have "snd (brave_search self search query max_results country search_lang)
        = Inr (json_dumps (Some 2) (JDict (filtered_results q search_results)))"
      using q by (simp add: brave_search_snd)
    then show ?thesis
      using json_loads_json_dumps success_payload_shape
      unfolding filtered_results_eq by blast
  next
    case (Inl x)
    show ?thesis
    proof (cases x)
      case (BraveSearchAPIError m)
      with Inl q have "snd (brave_search self search query max_results country search_lang)
          = Inr (json_dumps None (JDict [(''error'', JStr (''Brave Search API error: '' @ m))]))"
        by (simp add: brave_search_snd)
      then show ?thesis
        using json_loads_json_dumps error_payload_shape by blast
    next
      case (Exception m)
      with Inl q have "snd (brave_search self search query max_results country search_lang)
          = Inr (json_dumps None (JDict [(''error'', JStr (''An unexpected error occurred: '' @ m))]))"
        by (simp add: brave_search_snd)
      then show ?thesis
        using json_loads_json_dumps error_payload_shape by blast
    next
      case (BaseException m)
      with Inl assms show ?thesis by blast
    qed
  qed
qed

theorem search_always_returns_one_payload_shape_witness:
  "(\<forall>req e. (\<lambda>c r. Inr example_response) (self_brave_client example_tools) req \<noteq> Inl (BaseException e))
   \<and> (\<exists>s payload.
         snd (brave_search example_tools (\<lambda>c r. Inr example_response) (Some ''hol'') None None None) = Inr s
       \<and> json_loads s = Some payload
       \<and> (is_success_payload payload \<longleftrightarrow> \<not> is_error_payload payload))
   \<and> (\<forall>req e. (\<lambda>c r. Inl (Exception ''timeout'')) (self_brave_client example_tools) req \<noteq> Inl (BaseException e))
   \<and> (\<exists>s payload.
         snd (brave_search example_tools (\<lambda>c r. Inl (Exception ''timeout'')) (Some ''hol'') None None None) = Inr s
       \<and> json_loads s = Some payload
       \<and> (is_success_payload payload \<longleftrightarrow> \<not> is_error_payload payload))"
proof -
  have 1: "\<And>req e. (\<lambda>c r. Inr example_response) (self_brave_client example_tools) req \<noteq> Inl (BaseException e)"
    by simp
  have 2: "\<And>req e. (\<lambda>c r. Inl (Exception ''timeout'')) (self_brave_client example_tools) req \<noteq> Inl (BaseException e)"
    by simp
  show ?thesis
    using search_always_returns_one_payload_shape [of "\<lambda>c r. Inr example_response" example_tools, OF 1]
      search_always_returns_one_payload_shape [of "\<lambda>c r. Inl (Exception ''timeout'')" example_tools, OF 2]
    by simp
qed

text \<open>
  C8: every payload the method returns that is not an error payload has exactly the three
  keys \<^verbatim>\<open>web_results\<close>, \<^verbatim>\<open>query\<close> and \<^verbatim>\<open>total_results\<close>; its \<^verbatim>\<open>total_results\<close> is the
  length of its \<^verbatim>\<open>web_results\<close>, and its \<^verbatim>\<open>query\<close> is the query argument. This holds on
  every success path, the one with no results included.
\<close>

theorem success_payload_invariant:
  assumes "snd (brave_search self search query max_results country search_lang) = Inr s"
    and "json_loads s = Some payload"
    and "\<not> is_error_payload payload"
  shows "\<exists>q ws. query = Some q
           \<and> payload = JDict [(''web_results'', JList ws),
                              (''query'', JStr q),
                              (''total_results'', JInt (int (length ws)))]"
proof (cases "truthy query")
  case False
  then have "s = json_dumps None (JDict [(''error'', JStr ''Please provide a query to search for'')])"
    using assms(1) by (cases query) (auto simp: brave_search_snd truthy_def)
  with assms(2,3) show ?thesis
    using error_payload_shape(1) by (auto simp: json_loads_json_dumps)
next
  case True
  then obtain q where q: "query = Some q" "q \<noteq> []"
    by (cases query) (auto simp: truthy_def)
  let ?out = "search (self_brave_client self) (effective_request self q max_results country search_lang)"
  show ?thesis
  proof (cases ?out)
    case (Inr search_results)
    then have "s = json_dumps (Some 2) (JDict (filtered_results q search_results))"
      using q assms(1) by (simp add: brave_search_snd)
    with assms(2) have "payload = JDict (filtered_results q search_results)"
      by (simp add: json_loads_json_dumps)
    with q(1) show ?thesis
      by (simp add: filtered_results_eq)
  next
    case (Inl x)
    show ?thesis
    proof (cases x)
      case (BraveSearchAPIError m)
      with Inl q assms(1) have "s = json_dumps None (JDict [(''error'', JStr (''Brave Search API error: '' @ m))])"
        by (simp add: brave_search_snd)
      with assms(2,3) show ?thesis
        using error_payload_shape(1) by (auto simp: json_loads_json_dumps)
    next
      case (Exception m)
      with Inl q assms(1) have "s = json_dumps None (JDict [(''error'', JStr (''An unexpected error occurred: '' @ m))])"
        by (simp add: brave_search_snd)
      with assms(2,3) show ?thesis
        using error_payload_shape(1) by (auto simp: json_loads_json_dumps)
    next
      case (BaseException m)
      with Inl q assms(1) show ?thesis by (simp add: brave_search_snd)
    qed
  qed
qed

theorem success_payload_invariant_witness:
  "snd (brave_search example_tools (\<lambda>c r. Inr example_response) (Some ''hol'') None None None)
     = Inr (json_dumps (Some 2) example_payload)
   \<and> json_loads (json_dumps (Some 2) example_payload) = Some example_payload
   \<and> \<not> is_error_payload example_payload
   \<and> (\<exists>q ws. Some ''hol'' = Some q
         \<and> example_payload = JDict [(''web_results'', JList ws),
                                    (''query'', JStr q),
                                    (''total_results'', JInt (int (length ws)))])"
proof -
  have 1: "snd (brave_search example_tools (\<lambda>c r. Inr example_response) (Some ''hol'') None None None)
     = Inr (json_dumps (Some 2) example_payload)"
    by (rule example_search_result)
  have 2: "json_loads (json_dumps (Some 2) example_payload) = Some example_payload"
    by (rule json_loads_json_dumps)
  have 3: "\<not> is_error_payload example_payload"
    by (simp add: example_payload_def success_payload_shape)
  from success_payload_invariant [OF 1 2 3] 1 2 3 show ?thesis by blast
qed

text \<open>
  C10: the override tests for \<^verbatim>\<open>None\<close>, not for truth: with \<^verbatim>\<open>fixed_max_results = 0\<close> the
  count passed to the client is 0 whatever \<^verbatim>\<open>max_results\<close> is, and with
  \<^verbatim>\<open>fixed_language = ""\<close> the empty string is passed as the language. Construction
  stores both values as they are given.
\<close>

theorem falsy_fixed_values_still_override:
  "(self_fixed_max_results self = Some 0 \<longrightarrow>
      map req_count (client_calls (fst
        (brave_search self search (Some (ch # q)) max_results country search_lang))) = [0])
   \<and> (self_fixed_language self = Some [] \<longrightarrow>
      map req_search_lang (client_calls (fst
        (brave_search self search (Some (ch # q)) max_results country search_lang))) = [[]])
   \<and> (\<forall>built. snd (init getenv api_key fixed_max_results fixed_language wait_time retries) = Inr built
        \<longrightarrow> self_fixed_max_results built = fixed_max_results
          \<and> self_fixed_language built = fixed_language)"
proof (intro conjI impI allI)
  assume "self_fixed_max_results self = Some 0"
  then show "map req_count (client_calls (fst
        (brave_search self search (Some (ch # q)) max_results country search_lang))) = [0]"
    by (simp add: brave_search_calls effective_request_def)
next
  assume "self_fixed_language self = Some []"
  then show "map req_search_lang (client_calls (fst
        (brave_search self search (Some (ch # q)) max_results country search_lang))) = [[]]"
    by (simp add: brave_search_calls effective_request_def)
next
  fix built
  assume "snd (init getenv api_key fixed_max_results fixed_language wait_time retries) = Inr built"
  then show "self_fixed_max_results built = fixed_max_results"
    and "self_fixed_language built = fixed_language"
    using init_keeps_fixed_values by blast+
qed

theorem falsy_fixed_values_still_override_witness:
  "\<exists>built. snd (init example_getenv None (Some 0) (Some []) None None) = Inr built
     \<and> self_fixed_max_results built = Some 0
     \<and> self_fixed_language built = Some []
     \<and> map req_count (client_calls (fst
         (brave_search built (\<lambda>c r. Inr None) (Some ''hol'') (Some 10) None (Some ''fr'')))) = [0]
     \<and> map req_search_lang (client_calls (fst
         (brave_search built (\<lambda>c r. Inr None) (Some ''hol'') (Some 10) None (Some ''fr'')))) = [[]]"
proof -
  have e: "example_getenv ''BRAVE_API_KEY'' = Some ''BSA-env''"
    by (simp add: example_getenv_def)
  have n: "\<not> truthy None" by (simp add: truthy_def)
  have ne: "''BSA-env'' \<noteq> []" by simp
  obtain built where b: "snd (init example_getenv None (Some 0) (Some []) None None) = Inr built"
    unfolding init_with_environment [where getenv = example_getenv, OF n e ne] by simp
  note inst = falsy_fixed_values_still_override
    [of built "\<lambda>c r. Inr None" "CHR ''h''" "''ol''" "Some 10" None "Some ''fr''"
        example_getenv None "Some 0" "Some []" None None]
  from inst b have f: "self_fixed_max_results built = Some 0" "self_fixed_language built = Some []"
    by blast+
  with inst have r1: "map req_count (client_calls (fst
         (brave_search built (\<lambda>c r. Inr None) (Some ''hol'') (Some 10) None (Some ''fr'')))) = [0]"
    and r2: "map req_search_lang (client_calls (fst
         (brave_search built (\<lambda>c r. Inr None) (Some ''hol'') (Some 10) None (Some ''fr'')))) = [[]]"
    by blast+
  show ?thesis
    by (rule exI [of _ built]) (intro conjI b f r1 r2)
qed

section \<open>Construction\<close>

text \<open>
  C7: construction takes the API key from the \<^verbatim>\<open>api_key\<close> argument when that is given
  and not empty, and from the environment variable \<^verbatim>\<open>BRAVE_API_KEY\<close> otherwise; the
  client is made once, with that key. When neither gives a non-empty value, construction
  raises \<^verbatim>\<open>ValueError\<close>: there is no adapter, and no client has been made.
\<close>

theorem init_resolves_api_key:
  "(truthy api_key \<longrightarrow>
      (\<exists>self. init getenv api_key fixed_max_results fixed_language wait_time retries
                = ([self_brave_client self], Inr self)
             \<and> Some (self_api_key self) = api_key
             \<and> client_api_key (self_brave_client self) = self_api_key self))
   \<and> (\<not> truthy api_key \<and> truthy (getenv ''BRAVE_API_KEY'') \<longrightarrow>
      (\<exists>self. init getenv api_key fixed_max_results fixed_language wait_time retries
                = ([self_brave_client self], Inr self)
             \<and> Some (self_api_key self) = getenv ''BRAVE_API_KEY''
             \<and> client_api_key (self_brave_client self) = self_api_key self))
   \<and> (\<not> truthy api_key \<and> \<not> truthy (getenv ''BRAVE_API_KEY'') \<longrightarrow>
        init getenv api_key fixed_max_results fixed_language wait_time retries
          = ([], Inl (ValueError
              ''BRAVE_API_KEY is required. Please set the BRAVE_API_KEY environment variable.'')))"
proof (intro conjI impI)
  assume "truthy api_key"
  then obtain k where k: "api_key = Some k" "k \<noteq> []"
    by (cases api_key) (auto simp: truthy_def)
  show "\<exists>self. init getenv api_key fixed_max_results fixed_language wait_time retries
                = ([self_brave_client self], Inr self)
             \<and> Some (self_api_key self) = api_key
             \<and> client_api_key (self_brave_client self) = self_api_key self"
    unfolding k(1) init_with_argument [OF k(2)] by simp
next
  assume a: "\<not> truthy api_key \<and> truthy (getenv ''BRAVE_API_KEY'')"
  then obtain k where k: "getenv ''BRAVE_API_KEY'' = Some k" "k \<noteq> []"
    by (cases "getenv ''BRAVE_API_KEY''") (auto simp: truthy_def)
  from a have n: "\<not> truthy api_key" by simp
  show "\<exists>self. init getenv api_key fixed_max_results fixed_language wait_time retries
                = ([self_brave_client self], Inr self)
             \<and> Some (self_api_key self) = getenv ''BRAVE_API_KEY''
             \<and> client_api_key (self_brave_client self) = self_api_key self"
    unfolding init_with_environment [where getenv = getenv, OF n k] k(1) by simp
next
  assume "\<not> truthy api_key \<and> \<not> truthy (getenv ''BRAVE_API_KEY'')"
  then show "init getenv api_key fixed_max_results fixed_language wait_time retries
          = ([], Inl (ValueError
              ''BRAVE_API_KEY is required. Please set the BRAVE_API_KEY environment variable.''))"
    by (simp add: init_without_key)
qed

theorem init_resolves_api_key_witness:
  "truthy (Some ''BSA-arg'') \<and> truthy (example_getenv ''BRAVE_API_KEY'')
   \<and> \<not> truthy None \<and> \<not> truthy ((\<lambda>name. None) ''BRAVE_API_KEY'')
   \<and> (\<exists>self. init example_getenv (Some ''BSA-arg'') None None None None
               = ([self_brave_client self], Inr self)
            \<and> self_api_key self = ''BSA-arg'')
   \<and> (\<exists>self. init example_getenv None None None None None
               = ([self_brave_client self], Inr self)
            \<and> self_api_key self = ''BSA-env'')
   \<and> init (\<lambda>name. None) None None None None None
       = ([], Inl (ValueError
           ''BRAVE_API_KEY is required. Please set the BRAVE_API_KEY environment variable.''))"
proof -
  have 1: "truthy (Some ''BSA-arg'')" and 2: "truthy (example_getenv ''BRAVE_API_KEY'')"
    and 3: "\<not> truthy None" and 4: "\<not> truthy ((\<lambda>name. None) ''BRAVE_API_KEY'')"
    by (simp_all add: truthy_def example_getenv_def)
  have e: "example_getenv ''BRAVE_API_KEY'' = Some ''BSA-env''"
    by (simp add: example_getenv_def)
  from init_resolves_api_key [of "Some ''BSA-arg''" example_getenv None None None None] 1
  have a: "\<exists>self. init example_getenv (Some ''BSA-arg'') None None None None
               = ([self_brave_client self], Inr self) \<and> self_api_key self = ''BSA-arg''"
    by auto
  from init_resolves_api_key [of None example_getenv None None None None] 2 3
  have b: "\<exists>self. init example_getenv None None None None None
               = ([self_brave_client self], Inr self) \<and> self_api_key self = ''BSA-env''"
    unfolding e by auto
  from init_resolves_api_key [of None "\<lambda>name. None" None None None None] 3 4
  have c: "init (\<lambda>name. None) None None None None None
       = ([], Inl (ValueError
           ''BRAVE_API_KEY is required. Please set the BRAVE_API_KEY environment variable.''))"
    by blast
  from 1 2 3 4 a b c show ?thesis by (intro conjI)
qed

text \<open>
  C9: an \<^verbatim>\<open>api_key\<close> argument that is the empty string is treated as no argument at all:
  construction gives the same result as with \<^verbatim>\<open>None\<close>, so it takes the key from the
  environment variable \<^verbatim>\<open>BRAVE_API_KEY\<close> when that holds a non-empty value, instead of
  rejecting the empty key.
\<close>

theorem empty_api_key_falls_back_to_environment:
  "init getenv (Some []) fixed_max_results fixed_language wait_time retries
     = init getenv None fixed_max_results fixed_language wait_time retries
   \<and> (getenv ''BRAVE_API_KEY'' = Some (c # cs) \<longrightarrow>
        (\<exists>self. snd (init getenv (Some []) fixed_max_results fixed_language wait_time retries)
                  = Inr self
                \<and> self_api_key self = c # cs
                \<and> client_api_key (self_brave_client self) = c # cs))"
  by (simp add: init_def truthy_def Let_def)

theorem empty_api_key_falls_back_to_environment_witness:
  "(\<lambda>v. if v = ''BRAVE_API_KEY'' then Some ''BSA-key'' else None) ''BRAVE_API_KEY'' = Some ''BSA-key''
   \<and> (\<exists>self. snd (init (\<lambda>v. if v = ''BRAVE_API_KEY'' then Some ''BSA-key'' else None)
                       (Some []) None None None None) = Inr self
             \<and> self_api_key self = ''BSA-key''
             \<and> client_api_key (self_brave_client self) = ''BSA-key'')"
  using empty_api_key_falls_back_to_environment
    [of "\<lambda>v. if v = ''BRAVE_API_KEY'' then Some ''BSA-key'' else None" None None None None
        "CHR ''B''" "''SA-key''"]
  by auto

end
